theory Spec2Isabelle
  imports Complex_Main "HOL-Library.Char_ord" "HOL-Library.List_Lexorder" "HOL-Library.Sublist"
begin

section \<open>Python values and the outside world\<close>

text \<open>
  The module \<^verbatim>\<open>maps_scraper.py\<close> talks to three JSON endpoints (nearby search, place
  details, geocode) and to arbitrary web sites. The embedding passes the outside world
  explicitly: a world state of type \<open>'w\<close> is threaded through every request, so a
  provider may answer the same request differently at different times, and every request
  and every \<^verbatim>\<open>time.sleep\<close> is appended to a trace of events.

  Exceptions are values. \<open>FetchError\<close> stands for whatever \<^verbatim>\<open>requests.get\<close>,
  \<^verbatim>\<open>raise_for_status\<close> or \<^verbatim>\<open>r.json()\<close> raise inside \<^verbatim>\<open>fetch_json\<close>.
\<close>

datatype exn = ValueError string | FetchError | KeyError string

text \<open>JSON numbers as Python reads them: an \<^verbatim>\<open>int\<close> or a finite \<^verbatim>\<open>float\<close> (its exact value).\<close>

datatype pynum = PyInt int | PyFloat real

text \<open>What the \<^verbatim>\<open>rating\<close> key of a details result can hold: a number, a string or null.\<close>

datatype jvalue = JNum pynum | JStr string | JNull

text \<open>
  A request to one of the JSON endpoints, identified by what \<^verbatim>\<open>url_nearby\<close>,
  \<^verbatim>\<open>url_details\<close> and \<^verbatim>\<open>geocode_location\<close> build its URL from (the text of the URL,
  with its percent-encoding, is not reproduced): centre, radius, keyword and key; page
  token and key; place identifier and key; address and key.
\<close>

datatype request =
    NearbyQuery string int string string
  | NearbyPage string string
  | DetailsQuery string string
  | GeocodeQuery string string

record place =
  place_id :: "string option"

record nearby_response =
  status :: "string option"
  error_message :: "string option"
  results :: "place list option"
  next_page_token :: "string option"

record place_result =
  r_name :: "string option"
  r_formatted_address :: "string option"
  r_formatted_phone_number :: "string option"
  r_website :: "string option"
  r_rating :: "jvalue option"

record details_response =
  det_status :: "string option"
  result :: "place_result option"

record geo_location =
  lat :: pynum
  lng :: pynum

record geocode_response =
  geo_status :: "string option"
  geo_results :: "geo_location list option"

text \<open>
  A fetched web page after \<^verbatim>\<open>BeautifulSoup(r.text, "html.parser")\<close>: the HTTP status code
  (which \<^verbatim>\<open>scrape_site_emails\<close> never reads), \<^verbatim>\<open>soup.get_text(" ")\<close> and the list
  \<^verbatim>\<open>[a.get("href", "") for a in soup.find_all("a")]\<close>.
\<close>

record page =
  status_code :: nat
  get_text :: string
  hrefs :: "string list"

text \<open>
  The two delays: \<^verbatim>\<open>time.sleep(2.2)\<close> before a next page, and
  \<^verbatim>\<open>time.sleep(0.1 + random.random() * 0.1)\<close> after an appended record. A delay is an
  event of the trace; its length is not modelled, and it does not change the world.
\<close>

datatype delay = Pacing | Jitter

datatype event =
    FetchNearby request "nearby_response option"
  | FetchDetails "string option"
  | FetchPage string
  | FetchGeocode string
  | Sleep delay

text \<open>
  The environment: the four kinds of HTTP request (\<open>None\<close> when the request, the status
  check or the parser raises), and the library functions the module calls whose results
  are not computed here: \<^verbatim>\<open>urllib.parse.urljoin\<close>, \<^verbatim>\<open>float\<close> on a string (\<open>None\<close> for
  \<^verbatim>\<open>ValueError\<close>) and \<^verbatim>\<open>str\<close> on a number.
\<close>

record 'w env =
  fetch_nearby :: "request \<Rightarrow> 'w \<Rightarrow> nearby_response option \<times> 'w"
  fetch_details :: "request \<Rightarrow> 'w \<Rightarrow> details_response option \<times> 'w"
  fetch_geocode :: "request \<Rightarrow> 'w \<Rightarrow> geocode_response option \<times> 'w"
  get_page :: "string \<Rightarrow> 'w \<Rightarrow> page option \<times> 'w"
  urljoin :: "string \<Rightarrow> string \<Rightarrow> string"
  float_str :: "string \<Rightarrow> real option"
  str_num :: "pynum \<Rightarrow> string"

text \<open>Truth value of an optional string (\<^verbatim>\<open>if token:\<close>) and its \<^verbatim>\<open>str\<close> in an f-string.\<close>

fun truthy :: "string option \<Rightarrow> bool" where
  "truthy None = False"
| "truthy (Some s) = (s \<noteq> [])"

fun py_str :: "string option \<Rightarrow> string" where
  "py_str None = ''None''"
| "py_str (Some s) = s"

text \<open>\<^verbatim>\<open>d.get(k, default)\<close> on an optional string field.\<close>

fun get_or :: "string option \<Rightarrow> string \<Rightarrow> string" where
  "get_or None d = d"
| "get_or (Some s) d = s"

text \<open>\<^verbatim>\<open>str.join\<close>.\<close>

fun join :: "string \<Rightarrow> string list \<Rightarrow> string" where
  "join sep [] = []"
| "join sep [x] = x"
| "join sep (x # y # ys) = x @ sep @ join sep (y # ys)"

section \<open>The email pattern\<close>

text \<open>
  \<^verbatim>\<open>EMAIL_PAT = re.compile(r"[A-Z0-9._%+-]+@[A-Z0-9.-]+\.[A-Z]{2,}", re.I)\<close>, on ASCII text.
  The three character classes, case-insensitive:
\<close>

definition is_alpha :: "char \<Rightarrow> bool" where
  "is_alpha c = ((CHR ''A'' \<le> c \<and> c \<le> CHR ''Z'') \<or> (CHR ''a'' \<le> c \<and> c \<le> CHR ''z''))"

definition is_digit :: "char \<Rightarrow> bool" where
  "is_digit c = (CHR ''0'' \<le> c \<and> c \<le> CHR ''9'')"

definition local_char :: "char \<Rightarrow> bool" where
  "local_char c = (is_alpha c \<or> is_digit c \<or> c \<in> set ''._%+-'')"

definition domain_char :: "char \<Rightarrow> bool" where
  "domain_char c = (is_alpha c \<or> is_digit c \<or> c \<in> set ''.-'')"

text \<open>
  The backtracking of \<^verbatim>\<open>[A-Z0-9.-]+\.[A-Z]{2,}\<close> inside the longest run of domain
  characters: the greedy \<^verbatim>\<open>+\<close> gives characters back one at a time, so the match takes the
  last dot of the run that has a nonempty prefix before it and at least two letters after
  it, and then all the letters that follow. \<open>p\<close> is the part of the run already passed.
\<close>

fun match_domain :: "string \<Rightarrow> string \<Rightarrow> string option" where
  "match_domain p [] = None"
| "match_domain p (c # cs) =
     (case match_domain (p @ [c]) cs of
        Some d \<Rightarrow> Some d
      | None \<Rightarrow>
          if c = CHR ''.'' \<and> p \<noteq> [] \<and> 2 \<le> length (takeWhile is_alpha cs)
          then Some (p @ ''.'' @ takeWhile is_alpha cs)
          else None)"

text \<open>
  A match of the whole pattern at the start of a string. The local part is the longest
  run of local characters (a shorter one is followed by a local character, never by
  \<open>@\<close>).
\<close>

definition match_email :: "string \<Rightarrow> string option" where
  "match_email s =
     (let loc = takeWhile local_char s; rest = dropWhile local_char s in
      if loc = [] then None
      else case rest of
        [] \<Rightarrow> None
      | c # rest' \<Rightarrow>
          if c \<noteq> CHR ''@'' then None
          else case match_domain [] (takeWhile domain_char rest') of
            None \<Rightarrow> None
          | Some d \<Rightarrow> Some (loc @ ''@'' @ d))"

text \<open>
  \<^verbatim>\<open>EMAIL_PAT.findall\<close>: leftmost matches, left to right, not overlapping. The counter
  is the number of characters still covered by the last match.
\<close>

fun scan :: "nat \<Rightarrow> string \<Rightarrow> string list" where
  "scan k [] = []"
| "scan (Suc k) (c # cs) = scan k cs"
| "scan 0 (c # cs) =
     (case match_email (c # cs) of
        Some tok \<Rightarrow> tok # scan (length tok - 1) cs
      | None \<Rightarrow> scan 0 cs)"

definition findall :: "string \<Rightarrow> string list" where
  "findall s = scan 0 s"

text \<open>\<^verbatim>\<open>str.lower\<close> on ASCII.\<close>

definition lower_char :: "char \<Rightarrow> char" where
  "lower_char c =
     (if CHR ''A'' \<le> c \<and> c \<le> CHR ''Z'' then char_of (of_char c + (32::nat)) else c)"

definition lower :: "string \<Rightarrow> string" where
  "lower s = map lower_char s"

section \<open>scrape_site_emails\<close>

definition blob :: "page \<Rightarrow> string" where
  "blob p = get_text p @ '' '' @ join '' '' (hrefs p)"

text \<open>
  The loop over the two targets. \<open>found\<close> is the Python set; a failed attempt (the
  \<^verbatim>\<open>except Exception: pass\<close>) leaves it as it is. Returns the set, the world and the
  requests made.
\<close>

fun scrape_loop ::
  "'w env \<Rightarrow> string set \<Rightarrow> 'w \<Rightarrow> string list \<Rightarrow> string set \<times> 'w \<times> event list" where
  "scrape_loop env found w [] = (found, w, [])"
| "scrape_loop env found w (target # targets) =
     (case get_page env target w of
        (None, w') \<Rightarrow>
          (case scrape_loop env found w' targets of
             (f, w'', evs) \<Rightarrow> (f, w'', FetchPage target # evs))
      | (Some r, w') \<Rightarrow>
          (let found' = found \<union> set (findall (blob r)) in
           if found' \<noteq> {} then (found', w', [FetchPage target])
           else case scrape_loop env found' w' targets of
             (f, w'', evs) \<Rightarrow> (f, w'', FetchPage target # evs)))"

text \<open>
  \<^verbatim>\<open>";".join(sorted(e.lower() for e in found))\<close>: the elements of the set, each lowered,
  then sorted. The order in which the set is enumerated does not matter after sorting.
\<close>

definition join_found :: "string set \<Rightarrow> string" where
  "join_found found = join '';'' (sort (map lower (sorted_list_of_set found)))"

definition scrape_site_emails :: "'w env \<Rightarrow> string \<Rightarrow> 'w \<Rightarrow> string \<times> 'w \<times> event list" where
  "scrape_site_emails env url w =
     (case scrape_loop env {} w [url, urljoin env url ''/contact''] of
        (found, w', evs) \<Rightarrow> (join_found found, w', evs))"

section \<open>geocode_location and the resolution of the job's centre\<close>

text \<open>
  \<^verbatim>\<open>if data.get("status") != "OK" or not data.get("results")\<close> raises when the status is
  not OK or the result list is missing or empty; otherwise the first result is read.
\<close>

definition geocode_location ::
  "'w env \<Rightarrow> string \<Rightarrow> string \<Rightarrow> 'w \<Rightarrow> (exn + string) \<times> 'w \<times> event list" where
  "geocode_location env address_v api_key w =
     (case fetch_geocode env (GeocodeQuery address_v api_key) w of
        (None, w') \<Rightarrow> (Inl FetchError, w', [FetchGeocode address_v])
      | (Some data, w') \<Rightarrow>
          (case (if geo_status data \<noteq> Some ''OK'' then None else geo_results data) of
             None \<Rightarrow>
               (Inl (ValueError (''Geocode failed: '' @ py_str (geo_status data))), w',
                [FetchGeocode address_v])
           | Some [] \<Rightarrow>
               (Inl (ValueError (''Geocode failed: '' @ py_str (geo_status data))), w',
                [FetchGeocode address_v])
           | Some (loc # _) \<Rightarrow>
               (Inr (str_num env (lat loc) @ '','' @ str_num env (lng loc)), w',
                [FetchGeocode address_v])))"

text \<open>
  \<^verbatim>\<open>main.py\<close>, line 457:
  \<^verbatim>\<open>center = geocode_location(location, KEY) if "," not in location else location\<close>.
\<close>

definition resolve_center ::
  "'w env \<Rightarrow> string \<Rightarrow> string \<Rightarrow> 'w \<Rightarrow> (exn + string) \<times> 'w \<times> event list" where
  "resolve_center env location api_key w =
     (if CHR '','' \<notin> set location then geocode_location env location api_key w
      else (Inr location, w, []))"

section \<open>collect_leads\<close>

definition url_nearby :: "string \<Rightarrow> int \<Rightarrow> string \<Rightarrow> string \<Rightarrow> string option \<Rightarrow> request" where
  "url_nearby center radius keyword key token =
     (if truthy token then NearbyPage (py_str token) key
      else NearbyQuery center radius keyword key)"

definition url_details :: "string option \<Rightarrow> string \<Rightarrow> request" where
  "url_details pid key = DetailsQuery (py_str pid) key"

record lead =
  name :: string
  address :: string
  phone :: string
  website :: string
  email :: string
  rating :: string

text \<open>
  The state of one run: the world and the trace of events so far, the local variables
  \<^verbatim>\<open>seen\<close> and \<^verbatim>\<open>leads\<close>, and one ghost variable the code does not have:
  \<open>origins\<close> holds, for every record of \<open>leads\<close> and in the same order, the
  \<^verbatim>\<open>place_id\<close> of the search result it was built from. A missing \<^verbatim>\<open>place_id\<close> is
  \<open>None\<close>, as \<^verbatim>\<open>place.get("place_id")\<close> gives. The calls of \<^verbatim>\<open>logging\<close> are left out.
\<close>

record 'w state =
  world :: 'w
  trace :: "event list"
  seen :: "string option set"
  leads :: "lead list"
  origins :: "string option list"

type_synonym filters = "string \<rightharpoonup> string"

text \<open>\<^verbatim>\<open>filters.get(key, "no_filter")\<close>.\<close>

definition filter_get :: "filters \<Rightarrow> string \<Rightarrow> string" where
  "filter_get fs k = get_or (fs k) ''no_filter''"

text \<open>\<^verbatim>\<open>float(rating)\<close>: \<open>None\<close> for the \<^verbatim>\<open>ValueError\<close> or \<^verbatim>\<open>TypeError\<close> the code catches.\<close>

fun py_float :: "'w env \<Rightarrow> jvalue \<Rightarrow> real option" where
  "py_float env (JNum (PyInt i)) = Some (of_int i)"
| "py_float env (JNum (PyFloat x)) = Some x"
| "py_float env (JStr s) = float_str env s"
| "py_float env JNull = None"

text \<open>\<^verbatim>\<open>str(rating)\<close>.\<close>

fun py_str_value :: "'w env \<Rightarrow> jvalue \<Rightarrow> string" where
  "py_str_value env (JNum n) = str_num env n"
| "py_str_value env (JStr s) = s"
| "py_str_value env JNull = ''None''"

text \<open>\<^verbatim>\<open>r.get("rating", 0.0)\<close>.\<close>

definition rating_of :: "place_result \<Rightarrow> jvalue" where
  "rating_of r = (case r_rating r of None \<Rightarrow> JNum (PyFloat 0) | Some v \<Rightarrow> v)"

text \<open>
  Lines 122 to 136: whether the rating filter makes the loop \<^verbatim>\<open>continue\<close>. Both
  conversions happen inside the \<^verbatim>\<open>try\<close>, the filter's first; either failing leads to the
  \<^verbatim>\<open>except\<close> branch, which skips the place.
\<close>

definition rating_rejects :: "'w env \<Rightarrow> string \<Rightarrow> jvalue \<Rightarrow> bool" where
  "rating_rejects env rating_filter rating_v =
     (if rating_filter \<noteq> ''no_filter'' then
        (case float_str env rating_filter of
           None \<Rightarrow> True
         | Some min_rating \<Rightarrow>
             (case py_float env rating_v of
                None \<Rightarrow> True
              | Some place_rating \<Rightarrow>
                  if rating_filter = ''5'' then place_rating \<noteq> 5
                  else place_rating < min_rating))
      else False)"

text \<open>Lines 109 to 136 together: whether one of the three filters skips the place.\<close>

definition filters_reject :: "'w env \<Rightarrow> filters \<Rightarrow> string \<Rightarrow> string \<Rightarrow> jvalue \<Rightarrow> bool" where
  "filters_reject env fs website_v email_v rating_v =
     (let website_filter = filter_get fs ''website'';
          email_filter = filter_get fs ''email'';
          rating_filter = filter_get fs ''rating''
      in
      if website_filter = ''with'' \<and> website_v = '''' then True
      else if website_filter = ''without'' \<and> website_v \<noteq> '''' then True
      else if email_filter = ''with'' \<and> email_v = '''' then True
      else if email_filter = ''without'' \<and> email_v \<noteq> '''' then True
      else rating_rejects env rating_filter rating_v)"

text \<open>The body of the loop over the results of one page, for one search result.\<close>

definition process_place ::
  "'w env \<Rightarrow> filters \<Rightarrow> string \<Rightarrow> 'w state \<Rightarrow> place \<Rightarrow> exn option \<times> 'w state" where
  "process_place env fs api_key st pl =
     (let pid = place_id pl in
      if pid \<in> seen st then (None, st)
      else
        let st1 = st\<lparr>seen := insert pid (seen st)\<rparr> in
        case fetch_details env (url_details pid api_key) (world st1) of (det, w') \<Rightarrow>
        let st2 = st1\<lparr>world := w', trace := trace st1 @ [FetchDetails pid]\<rparr> in
        case det of
          None \<Rightarrow> (Some FetchError, st2)
        | Some det_data \<Rightarrow>
            if det_status det_data \<noteq> Some ''OK'' then (None, st2)
            else case result det_data of
              None \<Rightarrow> (Some (KeyError ''result''), st2)
            | Some r \<Rightarrow>
                let website_v = get_or (r_website r) '''' in
                case (if website_v \<noteq> '''' then scrape_site_emails env website_v (world st2)
                      else ('''', world st2, [])) of (email_v, w'', evs) \<Rightarrow>
                let st3 = st2\<lparr>world := w'', trace := trace st2 @ evs\<rparr>;
                    rating_v = rating_of r
                in
                if filters_reject env fs website_v email_v rating_v then (None, st3)
                else
                  (None, st3\<lparr>
                     leads := leads st3 @
                       [\<lparr>name = get_or (r_name r) '''',
                         address = get_or (r_formatted_address r) '''',
                         phone = get_or (r_formatted_phone_number r) '''',
                         website = website_v,
                         email = email_v,
                         rating = py_str_value env rating_v\<rparr>],
                     origins := origins st3 @ [pid],
                     trace := trace st3 @ [Sleep Jitter]\<rparr>))"

text \<open>The loop over the results of one page; an exception ends it.\<close>

fun process_places ::
  "'w env \<Rightarrow> filters \<Rightarrow> string \<Rightarrow> 'w state \<Rightarrow> place list \<Rightarrow> exn option \<times> 'w state" where
  "process_places env fs api_key st [] = (None, st)"
| "process_places env fs api_key st (pl # pls) =
     (case process_place env fs api_key st pl of
        (Some e, st') \<Rightarrow> (Some e, st')
      | (None, st') \<Rightarrow> process_places env fs api_key st' pls)"

text \<open>
  The \<^verbatim>\<open>ValueError\<close> raised on a search status that is neither OK nor ZERO_RESULTS:
  its message holds the status and the provider's message.
\<close>

definition provider_error :: "nearby_response \<Rightarrow> exn" where
  "provider_error data =
     ValueError (''Google Maps API Error: '' @ py_str (status data) @ ''. '' @
       get_or (error_message data) ''An unknown error occurred with the Google Maps API.'')"

definition bad_status :: "nearby_response \<Rightarrow> bool" where
  "bad_status data = (status data \<noteq> Some ''OK'' \<and> status data \<noteq> Some ''ZERO_RESULTS'')"

text \<open>
  The \<^verbatim>\<open>while page:\<close> loop of one keyword. Nothing in the code bounds it, so the model
  takes fuel, one unit for each page fetched, and is \<open>None\<close> when the fuel runs out.
\<close>

fun page_loop ::
  "nat \<Rightarrow> 'w env \<Rightarrow> filters \<Rightarrow> string \<Rightarrow> string \<Rightarrow> int \<Rightarrow> string \<Rightarrow> 'w state \<Rightarrow> request \<Rightarrow>
   (exn option \<times> 'w state) option" where
  "page_loop 0 env fs api_key center radius kw st pg = None"
| "page_loop (Suc n) env fs api_key center radius kw st pg =
     (case fetch_nearby env pg (world st) of (resp, w') \<Rightarrow>
      let st1 = st\<lparr>world := w', trace := trace st @ [FetchNearby pg resp]\<rparr> in
      case resp of
        None \<Rightarrow> Some (Some FetchError, st1)
      | Some data \<Rightarrow>
          if bad_status data then Some (Some (provider_error data), st1)
          else if status data = Some ''ZERO_RESULTS'' then Some (None, st1)
          else
            case process_places env fs api_key st1
                   (case results data of None \<Rightarrow> [] | Some ps \<Rightarrow> ps) of
              (Some e, st2) \<Rightarrow> Some (Some e, st2)
            | (None, st2) \<Rightarrow>
                if truthy (next_page_token data)
                then page_loop n env fs api_key center radius kw
                       (st2\<lparr>trace := trace st2 @ [Sleep Pacing]\<rparr>)
                       (url_nearby center radius kw api_key (next_page_token data))
                else Some (None, st2))"

text \<open>The loop over the keywords.\<close>

fun keyword_loop ::
  "nat \<Rightarrow> 'w env \<Rightarrow> filters \<Rightarrow> string \<Rightarrow> string \<Rightarrow> int \<Rightarrow> 'w state \<Rightarrow> string list \<Rightarrow>
   (exn option \<times> 'w state) option" where
  "keyword_loop n env fs api_key center radius st [] = Some (None, st)"
| "keyword_loop n env fs api_key center radius st (kw # kws) =
     (case page_loop n env fs api_key center radius kw st
             (url_nearby center radius kw api_key None) of
        None \<Rightarrow> None
      | Some (Some e, st') \<Rightarrow> Some (Some e, st')
      | Some (None, st') \<Rightarrow> keyword_loop n env fs api_key center radius st' kws)"

definition init_state :: "'w \<Rightarrow> 'w state" where
  "init_state w = \<lparr>world = w, trace = [], seen = {}, leads = [], origins = []\<rparr>"

text \<open>
  The whole run, with its state at the end. \<open>collect_leads\<close> is what the caller gets:
  the exception or the list of leads (a run that raises returns no leads), with the world
  and the trace. A \<^verbatim>\<open>filters\<close> argument of \<^verbatim>\<open>None\<close> is the empty dictionary.
\<close>

definition collect_run ::
  "nat \<Rightarrow> 'w env \<Rightarrow> string \<Rightarrow> int \<Rightarrow> string list \<Rightarrow> string \<Rightarrow> filters \<Rightarrow> 'w \<Rightarrow>
   (exn option \<times> 'w state) option" where
  "collect_run n env center radius keywords api_key fs w =
     keyword_loop n env fs api_key center radius (init_state w) keywords"

definition collect_leads ::
  "nat \<Rightarrow> 'w env \<Rightarrow> string \<Rightarrow> int \<Rightarrow> string list \<Rightarrow> string \<Rightarrow> filters \<Rightarrow> 'w \<Rightarrow>
   ((exn + lead list) \<times> 'w \<times> event list) option" where
  "collect_leads n env center radius keywords api_key fs w =
     (case collect_run n env center radius keywords api_key fs w of
        None \<Rightarrow> None
      | Some (Some e, st) \<Rightarrow> Some (Inl e, world st, trace st)
      | Some (None, st) \<Rightarrow> Some (Inr (leads st), world st, trace st))"

section \<open>Derived notions and a small provider for concrete runs\<close>

text \<open>The tokens one attempt of the harvester yields: none when the attempt raised.\<close>

definition page_tokens :: "page option \<Rightarrow> string list" where
  "page_tokens r = (case r of None \<Rightarrow> [] | Some p \<Rightarrow> findall (blob p))"

text \<open>The identifiers whose details were requested, in the order of the requests.\<close>

fun detail_fetches :: "event list \<Rightarrow> string option list" where
  "detail_fetches [] = []"
| "detail_fetches (FetchDetails pid # evs) = pid # detail_fetches evs"
| "detail_fetches (_ # evs) = detail_fetches evs"

text \<open>The search pages requested, in the order of the requests.\<close>

fun nearby_fetches :: "event list \<Rightarrow> request list" where
  "nearby_fetches [] = []"
| "nearby_fetches (FetchNearby req resp # evs) = req # nearby_fetches evs"
| "nearby_fetches (_ # evs) = nearby_fetches evs"

text \<open>Whether an event is the fetch of a search page whose status is neither OK nor ZERO_RESULTS.\<close>

fun bad_page :: "event \<Rightarrow> bool" where
  "bad_page (FetchNearby req (Some data)) = bad_status data"
| "bad_page _ = False"


text \<open>A filter specification whose three fields are all absent or \<^verbatim>\<open>"no_filter"\<close>.\<close>

definition no_filters :: "filters \<Rightarrow> bool" where
  "no_filters fs =
     (filter_get fs ''website'' = ''no_filter'' \<and> filter_get fs ''email'' = ''no_filter'' \<and>
      filter_get fs ''rating'' = ''no_filter'')"


text \<open>
  Two invariants of a run, used in the proofs. The first: the records and their origins
  are in step, no origin occurs twice, no identifier's details are requested twice, and
  \<^verbatim>\<open>seen\<close> holds exactly the identifiers whose details were requested. The second
  relates the exception a run ends with to the bad search page in its trace.
\<close>

definition dedup_inv :: "'w state \<Rightarrow> bool" where
  "dedup_inv st =
     (distinct (origins st) \<and> length (origins st) = length (leads st) \<and>
      distinct (detail_fetches (trace st)) \<and>
      set (origins st) \<subseteq> set (detail_fetches (trace st)) \<and>
      seen st = set (detail_fetches (trace st)))"


text \<open>
  The relation between a run under some filters and the run under no filter on the same
  provider, used in the proofs: the same world, the same \<^verbatim>\<open>seen\<close>, and the leads of
  the first a subsequence of the leads of the second.
\<close>

definition filter_sim :: "'w state \<Rightarrow> 'w state \<Rightarrow> bool" where
  "filter_sim s s0 = (world s = world s0 \<and> seen s = seen s0 \<and> subseq (leads s) (leads s0))"

fun sim_result ::
  "(exn option \<times> 'w state) option \<Rightarrow> (exn option \<times> 'w state) option \<Rightarrow> bool" where
  "sim_result None None = True"
| "sim_result (Some (e, s)) (Some (e0, s0)) = (e = e0 \<and> filter_sim s s0)"
| "sim_result _ _ = False"


text \<open>
  A provider with canned answers, for running the functions on concrete inputs. Its world
  is the number of requests made so far.
\<close>

definition demo_nearby :: "request \<Rightarrow> nearby_response option" where
  "demo_nearby req =
     (case req of
        NearbyQuery c r kw k \<Rightarrow>
          if kw = ''bakery'' then
            Some \<lparr>status = Some ''OK'', error_message = None,
                  results = Some [\<lparr>place_id = Some ''p1''\<rparr>, \<lparr>place_id = Some ''p2''\<rparr>],
                  next_page_token = Some ''t1''\<rparr>
          else if kw = ''cafe'' then
            Some \<lparr>status = Some ''OK'', error_message = None,
                  results = Some [\<lparr>place_id = Some ''p3''\<rparr>, \<lparr>place_id = Some ''p1''\<rparr>,
                                  \<lparr>place_id = Some ''p5''\<rparr>],
                  next_page_token = None\<rparr>
          else if kw = ''kiosk'' then
            Some \<lparr>status = Some ''OK'', error_message = None,
                  results = Some [\<lparr>place_id = Some ''p4''\<rparr>],
                  next_page_token = None\<rparr>
          else if kw = ''timeout'' then None
          else if kw = ''denied'' then
            Some \<lparr>status = Some ''REQUEST_DENIED'',
                  error_message = Some ''The provided API key is invalid.'',
                  results = Some [], next_page_token = None\<rparr>
          else
            Some \<lparr>status = Some ''ZERO_RESULTS'', error_message = None,
                  results = Some [], next_page_token = None\<rparr>
      | NearbyPage t k \<Rightarrow>
          Some \<lparr>status = Some ''OK'', error_message = None,
                results = Some [\<lparr>place_id = Some ''p1''\<rparr>, \<lparr>place_id = Some ''p3''\<rparr>],
                next_page_token = None\<rparr>
      | _ \<Rightarrow> None)"

definition demo_details :: "request \<Rightarrow> details_response option" where
  "demo_details req =
     (case req of
        DetailsQuery pid k \<Rightarrow>
          if pid = ''p1'' then
            Some \<lparr>det_status = Some ''OK'',
                  result = Some \<lparr>r_name = Some ''One'', r_formatted_address = Some ''1 Main St'',
                                  r_formatted_phone_number = None,
                                  r_website = Some ''http://one.example'',
                                  r_rating = Some (JNum (PyFloat 4.5))\<rparr>\<rparr>
          else if pid = ''p2'' then Some \<lparr>det_status = Some ''NOT_FOUND'', result = None\<rparr>
          else if pid = ''p3'' then
            Some \<lparr>det_status = Some ''OK'',
                  result = Some \<lparr>r_name = Some ''Three'', r_formatted_address = None,
                                  r_formatted_phone_number = Some ''555-0103'',
                                  r_website = None, r_rating = None\<rparr>\<rparr>
          else if pid = ''p5'' then
            Some \<lparr>det_status = Some ''OK'',
                  result = Some \<lparr>r_name = Some ''Five'', r_formatted_address = None,
                                  r_formatted_phone_number = None,
                                  r_website = None, r_rating = Some (JNum (PyInt 5))\<rparr>\<rparr>
          else None
      | _ \<Rightarrow> None)"

definition demo_geocode :: "request \<Rightarrow> geocode_response option" where
  "demo_geocode req =
     (case req of
        GeocodeQuery a k \<Rightarrow>
          if a = ''Berlin'' then
            Some \<lparr>geo_status = Some ''OK'',
                  geo_results = Some [\<lparr>lat = PyFloat 52.5, lng = PyFloat 13.25\<rparr>]\<rparr>
          else Some \<lparr>geo_status = Some ''ZERO_RESULTS'', geo_results = Some []\<rparr>
      | _ \<Rightarrow> None)"

definition demo_page :: "string \<Rightarrow> page option" where
  "demo_page u =
     (if u = ''http://one.example'' then
        Some \<lparr>status_code = 200, get_text = ''Fresh bread daily'', hrefs = [''/about'']\<rparr>
      else if u = ''http://one.example/contact'' then
        Some \<lparr>status_code = 200, get_text = ''Contact us'',
              hrefs = [''mailto:sales@example.com'']\<rparr>
      else if u = ''http://two.example'' then
        Some \<lparr>status_code = 200, get_text = ''Mail Help@Two.Example or help@two.example'',
              hrefs = []\<rparr>
      else if u = ''http://three.example'' then
        Some \<lparr>status_code = 404, get_text = ''Page not found, ask info@three.example'',
              hrefs = []\<rparr>
      else None)"

definition demo_str_num :: "pynum \<Rightarrow> string" where
  "demo_str_num n =
     (if n = PyFloat 52.5 then ''52.5'' else if n = PyFloat 13.25 then ''13.25''
      else if n = PyFloat 4.5 then ''4.5'' else if n = PyInt 5 then ''5'' else ''0.0'')"

definition demo_float_str :: "string \<Rightarrow> real option" where
  "demo_float_str s =
     (if s = ''1'' then Some 1 else if s = ''2'' then Some 2 else if s = ''3'' then Some 3
      else if s = ''4'' then Some 4 else if s = ''5'' then Some 5 else None)"

definition demo_env :: "nat env" where
  "demo_env =
     \<lparr>fetch_nearby = (\<lambda>req w. (demo_nearby req, Suc w)),
      fetch_details = (\<lambda>req w. (demo_details req, Suc w)),
      fetch_geocode = (\<lambda>req w. (demo_geocode req, Suc w)),
      get_page = (\<lambda>u w. (demo_page u, Suc w)),
      urljoin = (\<lambda>u p. u @ p),
      float_str = demo_float_str,
      str_num = demo_str_num\<rparr>"

section \<open>The harvester: equations and the pattern on a blob\<close>

lemma scrape_loop_two:
  "scrape_loop env {} w [u1, u2] =
     (case get_page env u1 w of (r1, w1) \<Rightarrow>
        if page_tokens r1 \<noteq> [] then (set (page_tokens r1), w1, [FetchPage u1])
        else case get_page env u2 w1 of (r2, w2) \<Rightarrow>
          (set (page_tokens r2), w2, [FetchPage u1, FetchPage u2]))"
  by (auto simp: page_tokens_def Let_def split: prod.splits option.splits)

lemma scrape_site_emails_eq:
  "scrape_site_emails env url w =
     (case get_page env url w of (r1, w1) \<Rightarrow>
        if page_tokens r1 \<noteq> [] then (join_found (set (page_tokens r1)), w1, [FetchPage url])
        else case get_page env (urljoin env url ''/contact'') w1 of (r2, w2) \<Rightarrow>
          (join_found (set (page_tokens r2)), w2,
           [FetchPage url, FetchPage (urljoin env url ''/contact'')]))"
  unfolding scrape_site_emails_def scrape_loop_two
  by (simp split: prod.splits)













section \<open>The collector: the shape of one step, and invariants of the loops\<close>

lemma scrape_events:
  "scrape_site_emails env url w = (e, w', evs) \<Longrightarrow> \<forall>ev\<in>set evs. \<exists>u. ev = FetchPage u"
  by (auto simp: scrape_site_emails_eq split: prod.splits if_splits)

lemma process_place_shape:
  assumes "process_place env fs api_key st pl = (exc, st')"
  shows "(place_id pl \<in> seen st \<and> exc = None \<and> st' = st) \<or>
         (place_id pl \<notin> seen st \<and> seen st' = insert (place_id pl) (seen st) \<and>
          (exc = None \<or> exc = Some FetchError \<or> exc = Some (KeyError ''result'')) \<and>
          (\<exists>evs. (\<forall>ev\<in>set evs. \<exists>u. ev = FetchPage u) \<and>
             ((leads st' = leads st \<and> origins st' = origins st \<and>
               trace st' = trace st @ FetchDetails (place_id pl) # evs) \<or>
              (exc = None \<and> (\<exists>l. leads st' = leads st @ [l]) \<and>
               origins st' = origins st @ [place_id pl] \<and>
               trace st' = trace st @ FetchDetails (place_id pl) # evs @ [Sleep Jitter]))))"
proof (cases "place_id pl \<in> seen st")
  case True
  with assms show ?thesis by (simp add: process_place_def)
next
  case False
  obtain det w1 where f: "fetch_details env (url_details (place_id pl) api_key) (world st) = (det, w1)"
    by (cases "fetch_details env (url_details (place_id pl) api_key) (world st)")
  show ?thesis
  proof (cases det)
    case None
    with assms False f show ?thesis
      by (auto simp: process_place_def Let_def)
  next
    case (Some dd)
    show ?thesis
    proof (cases "det_status dd = Some ''OK''")
      case no: False
      with assms False f Some show ?thesis
        by (auto simp: process_place_def Let_def)
    next
      case ok: True
      show ?thesis
      proof (cases "result dd")
        case None
        with assms False f Some ok show ?thesis
          by (auto simp: process_place_def Let_def)
      next
        case (Some r) note r = this
        obtain em w2 evs where s:
          "(if get_or (r_website r) '''' \<noteq> ''''
            then scrape_site_emails env (get_or (r_website r) '''') w1
            else ('''', w1, [])) = (em, w2, evs)"
          by (metis prod_cases3)
        have evs: "\<forall>ev\<in>set evs. \<exists>u. ev = FetchPage u"
          using s scrape_events by (fastforce split: if_splits)
        from assms False f \<open>det = Some dd\<close> ok r s evs show ?thesis
          by (auto simp: process_place_def Let_def split: if_splits)
      qed
    qed
  qed
qed

lemma process_places_rule:
  assumes step: "\<And>st pl exc st'. Q None st \<Longrightarrow> process_place env fs api_key st pl = (exc, st') \<Longrightarrow> Q exc st'"
  shows "Q None st \<Longrightarrow> process_places env fs api_key st pls = (exc, st') \<Longrightarrow> Q exc st'"
proof (induction pls arbitrary: st)
  case Nil
  then show ?case by simp
next
  case (Cons pl pls)
  obtain e1 s1 where p: "process_place env fs api_key st pl = (e1, s1)"
    by (cases "process_place env fs api_key st pl")
  have q1: "Q e1 s1" using step[OF Cons.prems(1) p] .
  show ?case
  proof (cases e1)
    case None
    with Cons.prems(2) p have "process_places env fs api_key s1 pls = (exc, st')" by simp
    with Cons.IH q1 None show ?thesis by blast
  next
    case (Some e)
    with Cons.prems(2) p have "exc = e1" "st' = s1" by simp_all
    with q1 show ?thesis by simp
  qed
qed

lemma page_loop_rule:
  assumes step: "\<And>st pl exc st'. Q None st \<Longrightarrow> process_place env fs api_key st pl = (exc, st') \<Longrightarrow> Q exc st'"
    and fetched: "\<And>st pg w' data. Q None st \<Longrightarrow> \<not> bad_status data \<Longrightarrow>
          Q None (st\<lparr>world := w', trace := trace st @ [FetchNearby pg (Some data)]\<rparr>)"
    and failed: "\<And>st pg w'. Q None st \<Longrightarrow>
          Q (Some FetchError) (st\<lparr>world := w', trace := trace st @ [FetchNearby pg None]\<rparr>)"
    and denied: "\<And>st pg w' data. Q None st \<Longrightarrow> bad_status data \<Longrightarrow>
          Q (Some (provider_error data))
            (st\<lparr>world := w', trace := trace st @ [FetchNearby pg (Some data)]\<rparr>)"
    and paced: "\<And>st. Q None st \<Longrightarrow> Q None (st\<lparr>trace := trace st @ [Sleep Pacing]\<rparr>)"
  shows "Q None st \<Longrightarrow> page_loop n env fs api_key center radius kw st pg = Some (exc, st') \<Longrightarrow>
         Q exc st'"
proof (induction n arbitrary: st pg)
  case 0
  then show ?case by simp
next
  case (Suc n)
  obtain resp w1 where f: "fetch_nearby env pg (world st) = (resp, w1)"
    by (cases "fetch_nearby env pg (world st)")
  let ?st1 = "st\<lparr>world := w1, trace := trace st @ [FetchNearby pg resp]\<rparr>"
  show ?case
  proof (cases resp)
    case None
    with Suc.prems(2) f have "exc = Some FetchError" "st' = ?st1" by (simp_all add: Let_def)
    with failed[OF Suc.prems(1)] None show ?thesis by simp
  next
    case (Some data)
    show ?thesis
    proof (cases "bad_status data")
      case True
      with Suc.prems(2) f Some have "exc = Some (provider_error data)" "st' = ?st1"
        by (simp_all add: Let_def)
      with denied[OF Suc.prems(1) True] Some show ?thesis by simp
    next
      case False
      have q1: "Q None ?st1" using fetched[OF Suc.prems(1) False] Some by simp
      show ?thesis
      proof (cases "status data = Some ''ZERO_RESULTS''")
        case True
        with Suc.prems(2) f Some False have "exc = None" "st' = ?st1" by (simp_all add: Let_def)
        with q1 show ?thesis by simp
      next
        case nz: False
        obtain e2 s2 where p: "process_places env fs api_key ?st1
            (case results data of None \<Rightarrow> [] | Some ps \<Rightarrow> ps) = (e2, s2)"
          by (metis surj_pair)
        have q2: "Q e2 s2" using process_places_rule[of Q, OF step q1 p] .
        show ?thesis
        proof (cases e2)
          case (Some e)
          with Suc.prems(2) f \<open>resp = Some data\<close> False nz p have "exc = e2" "st' = s2"
            by (simp_all add: Let_def)
          with q2 show ?thesis by simp
        next
          case None
          show ?thesis
          proof (cases "truthy (next_page_token data)")
            case True
            with Suc.prems(2) f \<open>resp = Some data\<close> False nz p None
            have "page_loop n env fs api_key center radius kw
                    (s2\<lparr>trace := trace s2 @ [Sleep Pacing]\<rparr>)
                    (url_nearby center radius kw api_key (next_page_token data)) = Some (exc, st')"
              by (simp add: Let_def)
            moreover have "Q None (s2\<lparr>trace := trace s2 @ [Sleep Pacing]\<rparr>)"
              using paced q2 None by simp
            ultimately show ?thesis using Suc.IH by blast
          next
            case nt: False
            with Suc.prems(2) f \<open>resp = Some data\<close> False nz p None have "exc = None" "st' = s2"
              by (simp_all add: Let_def)
            with q2 None show ?thesis by simp
          qed
        qed
      qed
    qed
  qed
qed

lemma keyword_loop_rule:
  assumes step: "\<And>st pl exc st'. Q None st \<Longrightarrow> process_place env fs api_key st pl = (exc, st') \<Longrightarrow> Q exc st'"
    and fetched: "\<And>st pg w' data. Q None st \<Longrightarrow> \<not> bad_status data \<Longrightarrow>
          Q None (st\<lparr>world := w', trace := trace st @ [FetchNearby pg (Some data)]\<rparr>)"
    and failed: "\<And>st pg w'. Q None st \<Longrightarrow>
          Q (Some FetchError) (st\<lparr>world := w', trace := trace st @ [FetchNearby pg None]\<rparr>)"
    and denied: "\<And>st pg w' data. Q None st \<Longrightarrow> bad_status data \<Longrightarrow>
          Q (Some (provider_error data))
            (st\<lparr>world := w', trace := trace st @ [FetchNearby pg (Some data)]\<rparr>)"
    and paced: "\<And>st. Q None st \<Longrightarrow> Q None (st\<lparr>trace := trace st @ [Sleep Pacing]\<rparr>)"
  shows "Q None st \<Longrightarrow> keyword_loop n env fs api_key center radius st kws = Some (exc, st') \<Longrightarrow>
         Q exc st'"
proof (induction kws arbitrary: st)
  case Nil
  then show ?case by simp
next
  case (Cons kw kws)
  from Cons.prems(2) obtain e1 s1 where
    p: "page_loop n env fs api_key center radius kw st (url_nearby center radius kw api_key None)
          = Some (e1, s1)"
    by (auto split: option.splits)
  have q1: "Q e1 s1"
    using page_loop_rule[of Q, OF step fetched failed denied paced Cons.prems(1) p] by simp
  show ?case
  proof (cases e1)
    case None
    with Cons.prems(2) p have "keyword_loop n env fs api_key center radius s1 kws = Some (exc, st')"
      by simp
    with Cons.IH q1 None show ?thesis by blast
  next
    case (Some e)
    with Cons.prems(2) p have "exc = e1" "st' = s1" by simp_all
    with q1 show ?thesis by simp
  qed
qed

lemma detail_fetches_append: "detail_fetches (xs @ ys) = detail_fetches xs @ detail_fetches ys"
  by (induction xs rule: detail_fetches.induct) simp_all

lemma detail_fetches_pages: "\<forall>ev\<in>set evs. \<exists>u. ev = FetchPage u \<Longrightarrow> detail_fetches evs = []"
  by (induction evs rule: detail_fetches.induct) auto





lemma bad_page_pages: "\<forall>ev\<in>set evs. \<exists>u. ev = FetchPage u \<Longrightarrow> \<not> list_ex bad_page evs"
  by (auto simp: list_ex_iff)



lemma dedup_step:
  assumes "dedup_inv st" "process_place env fs api_key st pl = (exc, st')"
  shows "dedup_inv st'"
  using process_place_shape[OF assms(2)] assms(1)
  by (auto simp: dedup_inv_def detail_fetches_append detail_fetches_pages)

lemma dedup_run:
  assumes "collect_run n env center radius kws api_key fs w = Some (exc, st)"
  shows "dedup_inv st"
proof -
  have "dedup_inv (init_state w)" by (simp add: dedup_inv_def init_state_def)
  from keyword_loop_rule[of "\<lambda>e. dedup_inv", OF _ _ _ _ _ this assms[unfolded collect_run_def]]
  show ?thesis
    by (simp add: dedup_step) (simp_all add: dedup_inv_def detail_fetches_append)
qed





lemma nearby_fetches_append: "nearby_fetches (xs @ ys) = nearby_fetches xs @ nearby_fetches ys"
  by (induction xs rule: nearby_fetches.induct) simp_all

lemma nearby_fetches_pages: "\<forall>ev\<in>set evs. \<exists>u. ev = FetchPage u \<Longrightarrow> nearby_fetches evs = []"
  by (induction evs rule: nearby_fetches.induct) auto

lemma nearby_step:
  assumes "nearby_fetches (trace st) = rs" "process_place env fs api_key st pl = (exc, st')"
  shows "nearby_fetches (trace st') = rs"
  using process_place_shape[OF assms(2)] assms(1)
  by (auto simp: nearby_fetches_append nearby_fetches_pages)

lemma nearby_places:
  assumes "process_places env fs api_key st pls = (exc, st')"
  shows "nearby_fetches (trace st') = nearby_fetches (trace st)"
proof (rule process_places_rule[where Q = "\<lambda>e s. nearby_fetches (trace s) = nearby_fetches (trace st)",
      OF _ _ assms])
  fix s pl e s'
  assume "nearby_fetches (trace s) = nearby_fetches (trace st)"
    and "process_place env fs api_key s pl = (e, s')"
  then show "nearby_fetches (trace s') = nearby_fetches (trace st)"
    by (rule nearby_step)
next
  show "nearby_fetches (trace st) = nearby_fetches (trace st)" ..
qed

section \<open>The collector: one step as an equation, and runs under different filters\<close>

lemma no_filters_accept: "no_filters nf \<Longrightarrow> \<not> filters_reject env nf website_v email_v rating_v"
  by (simp add: no_filters_def filters_reject_def rating_rejects_def)

lemma process_place_seen:
  "place_id pl \<in> seen st \<Longrightarrow> process_place env fs api_key st pl = (None, st)"
  by (simp add: process_place_def)

lemma process_place_dropped:
  assumes "place_id pl \<notin> seen st"
    and "fetch_details env (url_details (place_id pl) api_key) (world st) = (det, w1)"
    and "det = None \<or> (\<exists>dd. det = Some dd \<and> (det_status dd \<noteq> Some ''OK'' \<or> result dd = None))"
  shows "process_place env fs api_key st pl =
     (case det of None \<Rightarrow> Some FetchError
      | Some dd \<Rightarrow> if det_status dd \<noteq> Some ''OK'' then None else Some (KeyError ''result''),
      st\<lparr>seen := insert (place_id pl) (seen st), world := w1,
         trace := trace st @ [FetchDetails (place_id pl)]\<rparr>)"
  using assms by (auto simp: process_place_def Let_def)

lemma process_place_found:
  assumes "place_id pl \<notin> seen st"
    and "fetch_details env (url_details (place_id pl) api_key) (world st) = (Some dd, w1)"
    and "det_status dd = Some ''OK''" and "result dd = Some r"
    and "(if get_or (r_website r) '''' \<noteq> ''''
          then scrape_site_emails env (get_or (r_website r) '''') w1
          else ('''', w1, [])) = (em, w2, evs)"
  shows "process_place env fs api_key st pl =
     (None,
      if filters_reject env fs (get_or (r_website r) '''') em (rating_of r)
      then st\<lparr>seen := insert (place_id pl) (seen st), world := w2,
              trace := trace st @ FetchDetails (place_id pl) # evs\<rparr>
      else st\<lparr>seen := insert (place_id pl) (seen st), world := w2,
              leads := leads st @
                [\<lparr>name = get_or (r_name r) '''',
                  address = get_or (r_formatted_address r) '''',
                  phone = get_or (r_formatted_phone_number r) '''',
                  website = get_or (r_website r) '''', email = em,
                  rating = py_str_value env (rating_of r)\<rparr>],
              origins := origins st @ [place_id pl],
              trace := trace st @ FetchDetails (place_id pl) # evs @ [Sleep Jitter]\<rparr>)"
  using assms
  by (cases "get_or (r_website r) [] = []") (simp_all add: process_place_def Let_def)

lemma sim_place:
  assumes nf: "no_filters nf" and sim: "filter_sim s s0"
    and p: "process_place env fs api_key s pl = (e, s')"
    and p0: "process_place env nf api_key s0 pl = (e0, s0')"
  shows "e = e0 \<and> filter_sim s' s0'"
proof (cases "place_id pl \<in> seen s")
  case True
  then have "place_id pl \<in> seen s0" using sim by (simp add: filter_sim_def)
  with True p p0 sim show ?thesis by (simp add: process_place_seen)
next
  case False
  then have False0: "place_id pl \<notin> seen s0" using sim by (simp add: filter_sim_def)
  have w: "world s0 = world s" using sim by (simp add: filter_sim_def)
  obtain det w1 where f: "fetch_details env (url_details (place_id pl) api_key) (world s) = (det, w1)"
    by (cases "fetch_details env (url_details (place_id pl) api_key) (world s)")
  have f0: "fetch_details env (url_details (place_id pl) api_key) (world s0) = (det, w1)"
    using f w by simp
  show ?thesis
  proof (cases "det = None \<or> (\<exists>dd. det = Some dd \<and> (det_status dd \<noteq> Some ''OK'' \<or> result dd = None))")
    case True
    note L = process_place_dropped[OF False f True, of fs]
    note R = process_place_dropped[OF False0 f0 True, of nf]
    from p L p0 R have "e = e0"
      and "s' = s\<lparr>seen := insert (place_id pl) (seen s), world := w1,
                   trace := trace s @ [FetchDetails (place_id pl)]\<rparr>"
      and "s0' = s0\<lparr>seen := insert (place_id pl) (seen s0), world := w1,
                   trace := trace s0 @ [FetchDetails (place_id pl)]\<rparr>"
      by simp_all
    with sim show ?thesis by (simp add: filter_sim_def)
  next
    case False
    then obtain dd r where dd: "det = Some dd" and ok: "det_status dd = Some ''OK''"
      and r: "result dd = Some r"
      by auto
    obtain em w2 evs where sc:
      "(if get_or (r_website r) '''' \<noteq> ''''
        then scrape_site_emails env (get_or (r_website r) '''') w1
        else ('''', w1, [])) = (em, w2, evs)"
      by (metis prod_cases3)
    note L = process_place_found[OF \<open>place_id pl \<notin> seen s\<close> f[unfolded dd] ok r sc, of fs]
    note R = process_place_found[OF False0 f0[unfolded dd] ok r sc, of nf]
    from p L have e: "e = None" and s': "s' = snd (process_place env fs api_key s pl)"
      by simp_all
    from p0 R have e0: "e0 = None" and s0': "s0' = snd (process_place env nf api_key s0 pl)"
      by simp_all
    have "filter_sim s' s0'"
      unfolding s' s0' L R using sim
      by (simp add: filter_sim_def subseq_rev_drop_many no_filters_accept[OF nf])
    with e e0 show ?thesis by simp
  qed
qed

lemma sim_places:
  assumes nf: "no_filters nf"
  shows "filter_sim s s0 \<Longrightarrow> process_places env fs api_key s pls = (e, s') \<Longrightarrow>
         process_places env nf api_key s0 pls = (e0, s0') \<Longrightarrow> e = e0 \<and> filter_sim s' s0'"
proof (induction pls arbitrary: s s0)
  case Nil
  then show ?case by simp
next
  case (Cons pl pls)
  obtain e1 s1 where p: "process_place env fs api_key s pl = (e1, s1)"
    by (cases "process_place env fs api_key s pl")
  obtain e2 s2 where p0: "process_place env nf api_key s0 pl = (e2, s2)"
    by (cases "process_place env nf api_key s0 pl")
  from sim_place[OF nf Cons.prems(1) p p0] have eq: "e1 = e2" and sim1: "filter_sim s1 s2"
    by simp_all
  show ?case
  proof (cases e1)
    case None
    with Cons.prems(2,3) p p0 eq
    have "process_places env fs api_key s1 pls = (e, s')"
      "process_places env nf api_key s2 pls = (e0, s0')" by simp_all
    with Cons.IH[OF sim1] show ?thesis by blast
  next
    case (Some x)
    with Cons.prems(2,3) p p0 eq sim1 show ?thesis by auto
  qed
qed

lemma sim_page_loop:
  assumes nf: "no_filters nf"
  shows "filter_sim s s0 \<Longrightarrow>
         sim_result (page_loop n env fs api_key center radius kw s pg)
                    (page_loop n env nf api_key center radius kw s0 pg)"
proof (induction n arbitrary: s s0 pg)
  case 0
  then show ?case by simp
next
  case (Suc n)
  have w: "world s0 = world s" using Suc.prems by (simp add: filter_sim_def)
  obtain resp w1 where f: "fetch_nearby env pg (world s) = (resp, w1)"
    by (cases "fetch_nearby env pg (world s)")
  let ?ta = "s\<lparr>world := w1, trace := trace s @ [FetchNearby pg resp]\<rparr>"
  let ?tb = "s0\<lparr>world := w1, trace := trace s0 @ [FetchNearby pg resp]\<rparr>"
  have sim1: "filter_sim ?ta ?tb" using Suc.prems by (simp add: filter_sim_def)
  show ?case
  proof (cases resp)
    case None
    with f w sim1 show ?thesis by (simp add: Let_def)
  next
    case (Some data)
    show ?thesis
    proof (cases "bad_status data \<or> status data = Some ''ZERO_RESULTS''")
      case True
      with f w sim1 Some show ?thesis by (auto simp: Let_def)
    next
      case False
      obtain e2 s2 where p: "process_places env fs api_key ?ta
          (case results data of None \<Rightarrow> [] | Some ps \<Rightarrow> ps) = (e2, s2)"
        by (metis surj_pair)
      obtain e3 s3 where p0: "process_places env nf api_key ?tb
          (case results data of None \<Rightarrow> [] | Some ps \<Rightarrow> ps) = (e3, s3)"
        by (metis surj_pair)
      from sim_places[OF nf sim1 p p0] have eq: "e2 = e3" and sim2: "filter_sim s2 s3"
        by simp_all
      show ?thesis
      proof (cases e2)
        case (Some x)
        with f w \<open>resp = Some data\<close> False p p0 eq sim2 show ?thesis
          by (auto simp: Let_def)
      next
        case None
        show ?thesis
        proof (cases "truthy (next_page_token data)")
          case True
          have "filter_sim (s2\<lparr>trace := trace s2 @ [Sleep Pacing]\<rparr>)
                           (s3\<lparr>trace := trace s3 @ [Sleep Pacing]\<rparr>)"
            using sim2 by (simp add: filter_sim_def)
          from Suc.IH[OF this] f w \<open>resp = Some data\<close> False p p0 eq None True
          show ?thesis by (simp add: Let_def)
        next
          case nt: False
          with f w \<open>resp = Some data\<close> False p p0 eq sim2 None show ?thesis
            by (simp add: Let_def)
        qed
      qed
    qed
  qed
qed

lemma sim_keyword_loop:
  assumes nf: "no_filters nf"
  shows "filter_sim s s0 \<Longrightarrow>
         sim_result (keyword_loop n env fs api_key center radius s kws)
                    (keyword_loop n env nf api_key center radius s0 kws)"
proof (induction kws arbitrary: s s0)
  case Nil
  then show ?case by simp
next
  case (Cons kw kws)
  note pl = sim_page_loop[OF nf Cons.prems, of n env fs api_key center radius kw
      "url_nearby center radius kw api_key None"]
  show ?case
  proof (cases "page_loop n env fs api_key center radius kw s
                  (url_nearby center radius kw api_key None)")
    case None
    with pl have "page_loop n env nf api_key center radius kw s0
                  (url_nearby center radius kw api_key None) = None"
      by (cases "page_loop n env nf api_key center radius kw s0
                  (url_nearby center radius kw api_key None)") simp_all
    with None show ?thesis by simp
  next
    case (Some a)
    obtain e1 s1 where a: "a = (e1, s1)" by (cases a)
    from pl Some a obtain s2 where
      p0: "page_loop n env nf api_key center radius kw s0
             (url_nearby center radius kw api_key None) = Some (e1, s2)"
      and sim1: "filter_sim s1 s2"
      by (cases "page_loop n env nf api_key center radius kw s0
                  (url_nearby center radius kw api_key None)") auto
    show ?thesis
    proof (cases e1)
      case None
      with Some a p0 Cons.IH[OF sim1] show ?thesis by simp
    next
      case (Some x)
      with \<open>page_loop n env fs api_key center radius kw s
                  (url_nearby center radius kw api_key None) = Some a\<close> a p0 sim1
      show ?thesis by simp
    qed
  qed
qed

section \<open>The rating filter, and runs of the small provider\<close>








lemma demo_no_filters: "no_filters Map.empty"
  by (simp add: no_filters_def filter_get_def)

lemma demo_run_open:
  "map_option (\<lambda>(res, w, tr). (res, w))
     (collect_leads 3 demo_env ''52.5,13.25'' 1000 [''bakery'', ''cafe''] ''KEY'' Map.empty 0) =
   Some (Inr [\<lparr>name = ''One'', address = ''1 Main St'', phone = '''',
               website = ''http://one.example'', email = ''sales@example.com'', rating = ''4.5''\<rparr>,
              \<lparr>name = ''Three'', address = '''', phone = ''555-0103'', website = '''',
               email = '''', rating = ''0.0''\<rparr>,
              \<lparr>name = ''Five'', address = '''', phone = '''', website = '''',
               email = '''', rating = ''5''\<rparr>], 9)"
  by code_simp

lemma demo_run_with_website:
  "map_option (\<lambda>(res, w, tr). (res, w))
     (collect_leads 3 demo_env ''52.5,13.25'' 1000 [''bakery'', ''cafe''] ''KEY''
        [''website'' \<mapsto> ''with''] 0) =
   Some (Inr [\<lparr>name = ''One'', address = ''1 Main St'', phone = '''',
               website = ''http://one.example'', email = ''sales@example.com'', rating = ''4.5''\<rparr>],
         9)"
  by code_simp

lemma demo_run_two_keywords:
  "map_option (\<lambda>(e, st). (e, origins st, length (leads st), detail_fetches (trace st)))
     (collect_run 3 demo_env ''52.5,13.25'' 1000 [''bakery'', ''cafe''] ''KEY'' Map.empty 0) =
   Some (None, [Some ''p1'', Some ''p3'', Some ''p5''], 3,
         [Some ''p1'', Some ''p2'', Some ''p3'', Some ''p5''])"
  by code_simp



lemma demo_cafe_page:
  "fetch_nearby demo_env (NearbyQuery ''52.5,13.25'' 1000 ''cafe'' ''KEY'') (world (init_state 0)) =
     (Some \<lparr>status = Some ''OK'', error_message = None,
            results = Some [\<lparr>place_id = Some ''p3''\<rparr>, \<lparr>place_id = Some ''p1''\<rparr>,
                            \<lparr>place_id = Some ''p5''\<rparr>],
            next_page_token = None\<rparr>, 1)"
  by (simp add: demo_env_def demo_nearby_def init_state_def)

text \<open>
  More fuel never changes the outcome of a run that has ended: the outcome is that of the
  loop in the code whenever some amount of fuel gives one.
\<close>

lemma page_loop_mono:
  "page_loop n env fs api_key center radius kw st pg = Some res \<Longrightarrow>
   page_loop (n + k) env fs api_key center radius kw st pg = Some res"
proof (induction n arbitrary: st pg)
  case 0
  then show ?case by simp
next
  case (Suc n)
  then show ?case
    by (auto simp: Let_def split: prod.splits option.splits if_splits)
qed

lemma keyword_loop_mono:
  "keyword_loop n env fs api_key center radius st kws = Some res \<Longrightarrow>
   keyword_loop (n + k) env fs api_key center radius st kws = Some res"
proof (induction kws arbitrary: st)
  case Nil
  then show ?case by simp
next
  case (Cons kw kws)
  from Cons.prems obtain e1 s1 where
    p: "page_loop n env fs api_key center radius kw st (url_nearby center radius kw api_key None)
          = Some (e1, s1)"
    by (auto split: option.splits)
  note p' = page_loop_mono[OF p, of k]
  show ?case
  proof (cases e1)
    case None
    with Cons.prems p have "keyword_loop n env fs api_key center radius s1 kws = Some res"
      by simp
    from Cons.IH[OF this] p' None show ?thesis by simp
  next
    case (Some e)
    with Cons.prems p p' show ?thesis by auto
  qed
qed

lemma collect_leads_mono:
  "collect_leads n env center radius kws api_key fs w = Some res \<Longrightarrow>
   collect_leads (n + k) env center radius kws api_key fs w = Some res"
proof -
  assume a: "collect_leads n env center radius kws api_key fs w = Some res"
  then obtain r where r: "collect_run n env center radius kws api_key fs w = Some r"
    by (auto simp: collect_leads_def split: option.splits)
  then have "collect_run (n + k) env center radius kws api_key fs w = Some r"
    unfolding collect_run_def by (rule keyword_loop_mono)
  with a r show ?thesis by (simp add: collect_leads_def)
qed

section \<open>The claims\<close>

subsection \<open>Claims about the harvester\<close>







text \<open>
  Claim C6 says that the result never holds the same lowercased address twice. The set
  \<^verbatim>\<open>found\<close> holds the tokens as they are spelled, and they are lowercased only when the
  set is read out: a page that spells one address in two ways gives it twice.
\<close>

theorem harvest_duplicate_after_lowering:
  "scrape_site_emails demo_env ''http://two.example'' 0 =
     (''help@two.example;help@two.example'', 1, [FetchPage ''http://two.example''])"
  by code_simp



subsection \<open>Claim about the resolution of the centre\<close>

text \<open>
  Claim C7. A location that contains a comma is returned as it is and no request is made
  (so \<^verbatim>\<open>52.52,13.405\<close> resolves to itself). For any other location exactly one geocode
  request is made, and when the provider's status is not OK or its result list is missing
  or empty, the resolution fails with a \<^verbatim>\<open>ValueError\<close> whose message holds the status.
\<close>

theorem resolve_center_spec:
  "(CHR '','' \<in> set location \<longrightarrow> resolve_center env location api_key w = (Inr location, w, []))
   \<and> resolve_center env ''52.52,13.405'' api_key w = (Inr ''52.52,13.405'', w, [])
   \<and> (CHR '','' \<notin> set location \<longrightarrow>
        (\<exists>r w'. resolve_center env location api_key w = (r, w', [FetchGeocode location]))
        \<and> (\<forall>data w'.
              fetch_geocode env (GeocodeQuery location api_key) w = (Some data, w') \<and>
              (geo_status data \<noteq> Some ''OK'' \<or> geo_results data = None \<or> geo_results data = Some [])
              \<longrightarrow> resolve_center env location api_key w =
                    (Inl (ValueError (''Geocode failed: '' @ py_str (geo_status data))), w',
                     [FetchGeocode location])))"
  by (auto simp: resolve_center_def geocode_location_def split: prod.splits option.splits list.splits)

theorem resolve_center_spec_witness:
  "resolve_center demo_env ''52.5,13.25'' ''KEY'' 0 = (Inr ''52.5,13.25'', 0, [])
   \<and> resolve_center demo_env ''Atlantis'' ''KEY'' 0 =
       (Inl (ValueError ''Geocode failed: ZERO_RESULTS''), 1, [FetchGeocode ''Atlantis''])"
proof -
  have g: "fetch_geocode demo_env (GeocodeQuery ''Atlantis'' ''KEY'') 0 =
      (Some \<lparr>geo_status = Some ''ZERO_RESULTS'', geo_results = Some []\<rparr>, 1)"
    by (simp add: demo_env_def demo_geocode_def)
  have c: "CHR '','' \<in> set ''52.5,13.25''" by simp
  have n: "CHR '','' \<notin> set ''Atlantis''" by simp
  from resolve_center_spec[of "''52.5,13.25''" demo_env "''KEY''" 0] c
  have 1: "resolve_center demo_env ''52.5,13.25'' ''KEY'' 0 = (Inr ''52.5,13.25'', 0, [])"
    by blast
  from resolve_center_spec[of "''Atlantis''" demo_env "''KEY''" 0] n
  have "\<forall>data w'.
          fetch_geocode demo_env (GeocodeQuery ''Atlantis'' ''KEY'') 0 = (Some data, w') \<and>
          (geo_status data \<noteq> Some ''OK'' \<or> geo_results data = None \<or> geo_results data = Some [])
          \<longrightarrow> resolve_center demo_env ''Atlantis'' ''KEY'' 0 =
                (Inl (ValueError (''Geocode failed: '' @ py_str (geo_status data))), w',
                 [FetchGeocode ''Atlantis''])"
    by blast
  from this[rule_format, of "\<lparr>geo_status = Some ''ZERO_RESULTS'', geo_results = Some []\<rparr>" 1] g
  have 2: "resolve_center demo_env ''Atlantis'' ''KEY'' 0 =
       (Inl (ValueError ''Geocode failed: ZERO_RESULTS''), 1, [FetchGeocode ''Atlantis''])"
    by simp
  from 1 2 show ?thesis by simp
qed

subsection \<open>Claims about the collector\<close>

text \<open>
  Claim C1. In every run, over any keywords and pages, no two records of the output come
  from the same place identifier: the origins of the records are pairwise distinct (one
  origin for each record), no identifier's details are requested twice, and every origin
  is an identifier whose details were requested. A search result whose identifier is
  already in \<^verbatim>\<open>seen\<close> is skipped without any request, whatever keyword or page it comes
  from.
\<close>

theorem collect_dedup:
  "(place_id pl \<in> seen st \<longrightarrow> process_place env fs api_key st pl = (None, st))
   \<and> (collect_run n env center radius kws api_key fs w = Some (exc, st1) \<longrightarrow>
        length (origins st1) = length (leads st1) \<and> distinct (origins st1) \<and>
        distinct (detail_fetches (trace st1)) \<and>
        set (origins st1) \<subseteq> set (detail_fetches (trace st1)))"
proof -
  have skip: "place_id pl \<in> seen st \<Longrightarrow> process_place env fs api_key st pl = (None, st)"
    by (simp add: process_place_def)
  have run: "length (origins st1) = length (leads st1) \<and> distinct (origins st1) \<and>
        distinct (detail_fetches (trace st1)) \<and>
        set (origins st1) \<subseteq> set (detail_fetches (trace st1))"
    if "collect_run n env center radius kws api_key fs w = Some (exc, st1)"
    using dedup_run[OF that] by (simp add: dedup_inv_def)
  from skip run show ?thesis by blast
qed

theorem collect_dedup_witness:
  "\<exists>st1. collect_run 3 demo_env ''52.5,13.25'' 1000 [''bakery'', ''cafe''] ''KEY'' Map.empty 0 =
          Some (None, st1) \<and>
     origins st1 = [Some ''p1'', Some ''p3'', Some ''p5''] \<and>
     detail_fetches (trace st1) = [Some ''p1'', Some ''p2'', Some ''p3'', Some ''p5''] \<and>
     length (leads st1) = 3 \<and> distinct (origins st1) \<and> distinct (detail_fetches (trace st1))"
proof -
  from demo_run_two_keywords obtain st1 where
    r: "collect_run 3 demo_env ''52.5,13.25'' 1000 [''bakery'', ''cafe''] ''KEY'' Map.empty 0 =
          Some (None, st1)"
    and o: "origins st1 = [Some ''p1'', Some ''p3'', Some ''p5'']"
    and d: "detail_fetches (trace st1) = [Some ''p1'', Some ''p2'', Some ''p3'', Some ''p5'']"
    and l: "length (leads st1) = 3"
    by (auto split: prod.splits)
  from collect_dedup[where env = demo_env and n = 3 and center = "''52.5,13.25''" and radius = 1000
      and kws = "[''bakery'', ''cafe'']" and api_key = "''KEY''" and fs = Map.empty and w = 0
      and exc = None and ?st1.0 = st1] r
  have "distinct (origins st1) \<and> distinct (detail_fetches (trace st1))" by blast
  with r o d l show ?thesis by blast
qed






text \<open>
  Claim C4. On the same provider, from the same world, the run under no filter and the run
  under any filter specification end alike (both out of fuel, both with the same
  exception, or both with leads, in the same world), and the leads under the filters are a
  subsequence, hence a subset, of the leads under no filter.
\<close>

theorem no_filter_superset:
  "no_filters nf \<Longrightarrow>
     (case collect_leads n env center radius kws api_key nf w of
        None \<Rightarrow> collect_leads n env center radius kws api_key fs w = None
      | Some (Inl e, w0, tr0) \<Rightarrow>
          (\<exists>tr. collect_leads n env center radius kws api_key fs w = Some (Inl e, w0, tr))
      | Some (Inr ls0, w0, tr0) \<Rightarrow>
          (\<exists>ls tr. collect_leads n env center radius kws api_key fs w = Some (Inr ls, w0, tr) \<and>
             subseq ls ls0 \<and> set ls \<subseteq> set ls0))"
proof -
  assume nf: "no_filters nf"
  have "filter_sim (init_state w) (init_state w)" by (simp add: filter_sim_def)
  from sim_keyword_loop[OF nf this, of n env fs api_key center radius kws]
  have sr: "sim_result (collect_run n env center radius kws api_key fs w)
                       (collect_run n env center radius kws api_key nf w)"
    by (simp add: collect_run_def)
  show ?thesis
  proof (cases "collect_run n env center radius kws api_key nf w")
    case None
    with sr have "collect_run n env center radius kws api_key fs w = None"
      by (cases "collect_run n env center radius kws api_key fs w") simp_all
    with None show ?thesis by (simp add: collect_leads_def)
  next
    case (Some a)
    obtain e0 s0 where a: "a = (e0, s0)" by (cases a)
    from sr Some a obtain s where
      r: "collect_run n env center radius kws api_key fs w = Some (e0, s)"
      and sim: "filter_sim s s0"
      by (cases "collect_run n env center radius kws api_key fs w") auto
    from sim have "subseq (leads s) (leads s0)" "world s = world s0"
      by (simp_all add: filter_sim_def)
    moreover from this have "set (leads s) \<subseteq> set (leads s0)"
      by (auto elim: list_emb_set)
    ultimately show ?thesis using Some a r
      by (cases e0) (simp_all add: collect_leads_def)
  qed
qed

theorem no_filter_superset_witness:
  "\<exists>ls0 ls w0 tr0 tr.
     collect_leads 3 demo_env ''52.5,13.25'' 1000 [''bakery'', ''cafe''] ''KEY'' Map.empty 0 =
       Some (Inr ls0, w0, tr0) \<and>
     collect_leads 3 demo_env ''52.5,13.25'' 1000 [''bakery'', ''cafe''] ''KEY''
       [''website'' \<mapsto> ''with''] 0 = Some (Inr ls, w0, tr) \<and>
     length ls0 = 3 \<and> length ls = 1 \<and> subseq ls ls0 \<and> set ls \<subseteq> set ls0"
proof -
  from demo_run_open obtain ls0 w0 tr0 where
    a: "collect_leads 3 demo_env ''52.5,13.25'' 1000 [''bakery'', ''cafe''] ''KEY'' Map.empty 0 =
          Some (Inr ls0, w0, tr0)"
    and l0: "length ls0 = 3"
    by (auto split: prod.splits)
  from no_filter_superset[OF demo_no_filters, where n = 3 and env = demo_env
      and center = "''52.5,13.25''"
      and radius = 1000 and kws = "[''bakery'', ''cafe'']" and api_key = "''KEY''" and w = 0
      and fs = "[''website'' \<mapsto> ''with'']"] a
  obtain ls tr where
    b: "collect_leads 3 demo_env ''52.5,13.25'' 1000 [''bakery'', ''cafe''] ''KEY''
          [''website'' \<mapsto> ''with''] 0 = Some (Inr ls, w0, tr)"
    and s: "subseq ls ls0" "set ls \<subseteq> set ls0"
    by auto
  from demo_run_with_website b have "length ls = 1" by simp
  with a b l0 s show ?thesis by blast
qed

text \<open>
  Claim C8. After a search page has been fetched, the loop of a keyword goes on exactly
  when the page is OK, its results raised nothing and it has a nonempty
  \<^verbatim>\<open>next_page_token\<close>. When the page has no token, the loop ends with that one unit of
  fuel: one search request was added to the trace, and for an OK page the outcome is that
  of one pass over its results.
\<close>

theorem page_loop_token_driven:
  assumes "fetch_nearby env pg (world st) = (Some data, w')"
  shows "(\<not> truthy (next_page_token data) \<longrightarrow>
            (\<exists>exc st'. page_loop (Suc n) env fs api_key center radius kw st pg = Some (exc, st') \<and>
               nearby_fetches (trace st') = nearby_fetches (trace st) @ [pg] \<and>
               (status data = Some ''OK'' \<longrightarrow>
                  (exc, st') =
                    process_places env fs api_key
                      (st\<lparr>world := w', trace := trace st @ [FetchNearby pg (Some data)]\<rparr>)
                      (case results data of None \<Rightarrow> [] | Some ps \<Rightarrow> ps))))
       \<and> (\<forall>st2. truthy (next_page_token data) \<and> status data = Some ''OK'' \<and>
            process_places env fs api_key
              (st\<lparr>world := w', trace := trace st @ [FetchNearby pg (Some data)]\<rparr>)
              (case results data of None \<Rightarrow> [] | Some ps \<Rightarrow> ps) = (None, st2) \<longrightarrow>
            page_loop (Suc n) env fs api_key center radius kw st pg =
              page_loop n env fs api_key center radius kw
                (st2\<lparr>trace := trace st2 @ [Sleep Pacing]\<rparr>)
                (NearbyPage (py_str (next_page_token data)) api_key))"
proof (intro conjI impI allI)
  assume nt: "\<not> truthy (next_page_token data)"
  let ?st1 = "st\<lparr>world := w', trace := trace st @ [FetchNearby pg (Some data)]\<rparr>"
  obtain e2 s2 where p: "process_places env fs api_key ?st1
      (case results data of None \<Rightarrow> [] | Some ps \<Rightarrow> ps) = (e2, s2)"
    by (metis surj_pair)
  have n2: "nearby_fetches (trace s2) = nearby_fetches (trace st) @ [pg]"
    using nearby_places[OF p] by (simp add: nearby_fetches_append)
  show "\<exists>exc st'. page_loop (Suc n) env fs api_key center radius kw st pg = Some (exc, st') \<and>
               nearby_fetches (trace st') = nearby_fetches (trace st) @ [pg] \<and>
               (status data = Some ''OK'' \<longrightarrow>
                  (exc, st') =
                    process_places env fs api_key ?st1
                      (case results data of None \<Rightarrow> [] | Some ps \<Rightarrow> ps))"
  proof (cases "bad_status data")
    case True
    then have "status data \<noteq> Some ''OK''" by (simp add: bad_status_def)
    with True assms show ?thesis
      by (simp add: Let_def nearby_fetches_append)
  next
    case False
    show ?thesis
    proof (cases "status data = Some ''ZERO_RESULTS''")
      case True
      with False assms show ?thesis by (simp add: Let_def nearby_fetches_append)
    next
      case nz: False
      with False assms nt p n2 show ?thesis
        by (cases e2) (simp_all add: Let_def)
    qed
  qed
next
  fix st2
  assume a: "truthy (next_page_token data) \<and> status data = Some ''OK'' \<and>
            process_places env fs api_key
              (st\<lparr>world := w', trace := trace st @ [FetchNearby pg (Some data)]\<rparr>)
              (case results data of None \<Rightarrow> [] | Some ps \<Rightarrow> ps) = (None, st2)"
  then have "\<not> bad_status data" "status data \<noteq> Some ''ZERO_RESULTS''"
    by (simp_all add: bad_status_def)
  with a assms show "page_loop (Suc n) env fs api_key center radius kw st pg =
              page_loop n env fs api_key center radius kw
                (st2\<lparr>trace := trace st2 @ [Sleep Pacing]\<rparr>)
                (NearbyPage (py_str (next_page_token data)) api_key)"
    by (simp add: Let_def url_nearby_def)
qed

theorem page_loop_token_driven_witness:
  "\<exists>exc st'. page_loop (Suc 0) demo_env Map.empty ''KEY'' ''52.5,13.25'' 1000 ''cafe'' (init_state 0)
       (NearbyQuery ''52.5,13.25'' 1000 ''cafe'' ''KEY'') = Some (exc, st') \<and>
     nearby_fetches (trace st') = [NearbyQuery ''52.5,13.25'' 1000 ''cafe'' ''KEY'']"
proof -
  have t: "\<not> truthy (next_page_token
      \<lparr>status = Some ''OK'', error_message = None,
       results = Some [\<lparr>place_id = Some ''p3''\<rparr>, \<lparr>place_id = Some ''p1''\<rparr>,
                       \<lparr>place_id = Some ''p5''\<rparr>],
       next_page_token = None\<rparr>)"
    by simp
  have e: "nearby_fetches (trace (init_state (0::nat))) = []"
    by (simp add: init_state_def)
  from page_loop_token_driven[OF demo_cafe_page, of 0 Map.empty "''KEY''" "''52.5,13.25''" 1000 "''cafe''"]
    t
  obtain exc st' where
    "page_loop (Suc 0) demo_env Map.empty ''KEY'' ''52.5,13.25'' 1000 ''cafe'' (init_state 0)
       (NearbyQuery ''52.5,13.25'' 1000 ''cafe'' ''KEY'') = Some (exc, st')"
    "nearby_fetches (trace st') = nearby_fetches (trace (init_state (0::nat))) @
       [NearbyQuery ''52.5,13.25'' 1000 ''cafe'' ''KEY'']"
    by blast
  with e show ?thesis by simp
qed





end

